theory Spec2Isabelle
  imports Main
begin

section \<open>Data model\<close>

text \<open>
  The delta calculator of the bundler (\<^verbatim>\<open>DeltaBundler/DeltaCalculator.js\<close>) keeps a
  dependency graph and two sets of pending file changes, and computes on demand the
  modules that changed since the last call.

  JavaScript's \<^verbatim>\<open>Set\<close> and \<^verbatim>\<open>Map\<close> iterate in insertion order, and the code relies
  on that order (\<^verbatim>\<open>Array.from(modifiedFiles)\<close> is what the traversal is given), so a
  \<^verbatim>\<open>Set\<close> is a list without repetition and a \<^verbatim>\<open>Map\<close> is an association list.
\<close>

type_synonym path = string

definition Set_add :: "'a \<Rightarrow> 'a list \<Rightarrow> 'a list" where
  "Set_add x xs = (if x \<in> set xs then xs else xs @ [x])"

definition Set_delete :: "'a \<Rightarrow> 'a list \<Rightarrow> 'a list" where
  "Set_delete x xs = removeAll x xs"

definition Map_get :: "('k \<times> 'v) list \<Rightarrow> 'k \<Rightarrow> 'v option" where
  "Map_get m k = map_of m k"

definition Map_has :: "('k \<times> 'v) list \<Rightarrow> 'k \<Rightarrow> bool" where
  "Map_has m k = (case map_of m k of None \<Rightarrow> False | Some _ \<Rightarrow> True)"

definition Map_size :: "('k \<times> 'v) list \<Rightarrow> nat" where
  "Map_size m = length m"

text \<open>
  Modelled from the spec: the type of an edge's output is declared in
  \<^verbatim>\<open>traverseDependencies.js\<close>, which is not among the sources. The spec's output holds
  the code text, the output kind (the test file gives an edge these two) and optional
  source-map fields.
\<close>

record module_output =
  code :: string
  output_type :: string
  sourceURL :: "string option"
  sourceMappingURL :: "string option"

text \<open>
  Modelled from the spec: the type \<^verbatim>\<open>DependencyEdge\<close> is declared in
  \<^verbatim>\<open>traverseDependencies.js\<close> too. The spec's edge record has a path, the ordered mapping
  from specifier to resolved path, the set of the paths that depend on the module, and the
  output.
\<close>

record DependencyEdge =
  edge_dependencies :: "(string \<times> path) list"
  inverseDependencies :: "path list"
  edge_path :: path
  edge_output :: module_output

record Graph =
  dependencies :: "(path \<times> DependencyEdge) list"
  entryPoints :: "path list"

record DeltaResult =
  modified :: "(path \<times> DependencyEdge) list"
  deleted :: "path list"
  reset :: bool

datatype module_type = Module | Script

record Options =
  opt_assetPlugins :: "string list"
  opt_customTransformOptions :: "(string \<times> string) list"
  opt_dev :: bool
  opt_entryPoints :: "path list"
  opt_hot :: bool
  opt_minify :: bool
  opt_platform :: "string option"
  opt_type :: module_type

text \<open>
  The value of \<^verbatim>\<open>inlineRequires\<close>: the bundler answers with a boolean, with an object
  holding a blacklist, or with nothing.
\<close>

datatype inline_requires = IRUndefined | IRBool bool | IRBlacklist "path list"

fun truthy :: "inline_requires \<Rightarrow> bool" where
  "truthy IRUndefined = False"
| "truthy (IRBool b) = b"
| "truthy (IRBlacklist _) = True"

record JSTransformerOptions =
  assetDataPlugins :: "string list"
  customTransformOptions :: "(string \<times> string) list"
  enableBabelRCLookup :: bool
  dev :: bool
  hot :: bool
  inlineRequires :: inline_requires
  minify :: bool
  platform :: "string option"
  projectRoot :: string

text \<open>
  A thrown value. The transform step throws errors that carry a type, a file name and a
  line number beside the message (the test file builds one); any of the three may be absent.
\<close>

record js_error =
  err_type :: "string option"
  err_message :: string
  err_filename :: "string option"
  err_lineNumber :: "int option"

text \<open>
  The traversal functions mutate the graph they are given and either resolve with a value
  or reject with an error; in both cases the graph is left as the call made it.
\<close>

datatype 'a settled = Resolved 'a Graph | Rejected js_error Graph

text \<open>
  The collaborators of the calculator, whose code is not among the sources: the bundler
  (\<^verbatim>\<open>getGlobalTransformOptions\<close>, \<^verbatim>\<open>getTransformOptionsForEntryFiles\<close>) and the three
  functions of \<^verbatim>\<open>traverseDependencies.js\<close>. The resolver and the progress callback that
  the calculator hands to the traversal are fixed per instance and are part of these
  functions.
\<close>

record collaborators =
  getGlobalTransformOptions :: "bool \<times> string"
  getTransformOptionsForEntryFiles ::
    "path list \<Rightarrow> bool \<times> string option \<Rightarrow> (path \<Rightarrow> js_error + path list)
      \<Rightarrow> js_error + inline_requires"
  initialTraverseDependencies ::
    "Graph \<Rightarrow> JSTransformerOptions \<times> module_type \<Rightarrow> (path \<times> DependencyEdge) list settled"
  traverseDependencies ::
    "path list \<Rightarrow> JSTransformerOptions \<times> module_type \<Rightarrow> Graph
      \<Rightarrow> ((path \<times> DependencyEdge) list \<times> path list) settled"
  reorderGraph :: "Graph \<Rightarrow> Graph"

text \<open>
  The fields of a \<^verbatim>\<open>DeltaCalculator\<close>. \<open>watching\<close> says that the calculator's handler is
  registered with the file watcher, \<open>listeners\<close> are the listeners registered on the
  calculator itself (it is an event emitter), and \<open>emitted\<close> counts the \<^verbatim>\<open>change\<close> events
  it has emitted. Calls of \<^verbatim>\<open>getDelta\<close> run one after the other (that is what the wait on
  \<^verbatim>\<open>_currentBuildPromise\<close> is for), so that field is not part of the state between calls.
\<close>

record DeltaCalculator =
  options :: Options
  transformerOptions :: "JSTransformerOptions option"
  deletedFiles :: "path list"
  modifiedFiles :: "path list"
  graph :: Graph
  watching :: bool
  listeners :: "nat list"
  emitted :: nat

record file_event =
  ev_type :: string
  filePath :: path

section \<open>Operations\<close>

definition new_DeltaCalculator :: "Options \<Rightarrow> DeltaCalculator" where
  "new_DeltaCalculator opts =
     \<lparr>options = opts, transformerOptions = None, deletedFiles = [], modifiedFiles = [],
      graph = \<lparr>dependencies = [], entryPoints = opt_entryPoints opts\<rparr>,
      watching = True, listeners = [], emitted = 0\<rparr>"

definition end_DeltaCalculator :: "DeltaCalculator \<Rightarrow> DeltaCalculator" where
  "end_DeltaCalculator s =
     (let s1 = s\<lparr>watching := False\<rparr>;
          s2 = s1\<lparr>listeners := []\<rparr>;
          s3 = s2\<lparr>graph := \<lparr>dependencies = [], entryPoints = opt_entryPoints (options s2)\<rparr>\<rparr>;
          s4 = s3\<lparr>modifiedFiles := []\<rparr>
      in s4\<lparr>deletedFiles := []\<rparr>)"

definition handleFileChange :: "file_event \<Rightarrow> DeltaCalculator \<Rightarrow> DeltaCalculator" where
  "handleFileChange ev s =
     (let s1 = (if ev_type ev = ''delete''
                then s\<lparr>deletedFiles := Set_add (filePath ev) (deletedFiles s),
                        modifiedFiles := Set_delete (filePath ev) (modifiedFiles s)\<rparr>
                else s\<lparr>deletedFiles := Set_delete (filePath ev) (deletedFiles s),
                        modifiedFiles := Set_add (filePath ev) (modifiedFiles s)\<rparr>)
      in s1\<lparr>emitted := Suc (emitted s1)\<rparr>)"

definition handleMultipleFileChanges :: "file_event list \<Rightarrow> DeltaCalculator \<Rightarrow> DeltaCalculator" where
  "handleMultipleFileChanges eventsQueue s = fold handleFileChange eventsQueue s"

definition calcTransformerOptions :: "collaborators \<Rightarrow> Options \<Rightarrow> js_error + JSTransformerOptions" where
  "calcTransformerOptions env opts =
     (let (babelRC, root) = getGlobalTransformOptions env;
          transformOptionsForBlacklist =
            \<lparr>assetDataPlugins = opt_assetPlugins opts,
             customTransformOptions = opt_customTransformOptions opts,
             enableBabelRCLookup = babelRC,
             dev = opt_dev opts,
             hot = opt_hot opts,
             inlineRequires = IRBool False,
             minify = opt_minify opts,
             platform = opt_platform opts,
             projectRoot = root\<rparr>
      in if opt_type opts = Script
         then Inr (transformOptionsForBlacklist\<lparr>inlineRequires := IRBool False\<rparr>)
         else (case getTransformOptionsForEntryFiles env (opt_entryPoints opts)
                      (opt_dev opts, opt_platform opts)
                      (\<lambda>p. case initialTraverseDependencies env
                                   \<lparr>dependencies = [], entryPoints = [p]\<rparr>
                                   (transformOptionsForBlacklist, opt_type opts) of
                              Resolved added _ \<Rightarrow> Inr (map fst added)
                            | Rejected e _ \<Rightarrow> Inl e) of
                 Inl e \<Rightarrow> Inl e
               | Inr ir \<Rightarrow>
                   Inr (transformOptionsForBlacklist
                          \<lparr>inlineRequires := (if truthy ir then ir else IRBool False)\<rparr>)))"

definition getTransformerOptions ::
  "collaborators \<Rightarrow> DeltaCalculator \<Rightarrow> (js_error + JSTransformerOptions) \<times> DeltaCalculator" where
  "getTransformerOptions env s =
     (case transformerOptions s of
        Some t \<Rightarrow> (Inr t, s)
      | None \<Rightarrow>
          (case calcTransformerOptions env (options s) of
             Inl e \<Rightarrow> (Inl e, s)
           | Inr t \<Rightarrow> (Inr t, s\<lparr>transformerOptions := Some t\<rparr>)))"

text \<open>
  Lines 304 to 310: every deleted path that has an edge in the graph adds the paths of that
  edge's \<^verbatim>\<open>inverseDependencies\<close> to the set \<^verbatim>\<open>modifiedFiles\<close> it was given. The set is
  the caller's object, so the caller sees the additions.
\<close>

definition invalidateDependents :: "Graph \<Rightarrow> path list \<Rightarrow> path list \<Rightarrow> path list" where
  "invalidateDependents g deletedFiles' modifiedFiles' =
     fold (\<lambda>p m. case Map_get (dependencies g) p of
                    None \<Rightarrow> m
                  | Some edge \<Rightarrow> fold Set_add (inverseDependencies edge) m)
          deletedFiles' modifiedFiles'"

text \<open>
  \<^verbatim>\<open>_getChangedDependencies\<close>. The result is the outcome of the promise, the set
  \<^verbatim>\<open>modifiedFiles\<close> as the call left it, and the calculator.
\<close>

definition getChangedDependencies ::
  "collaborators \<Rightarrow> path list \<Rightarrow> path list \<Rightarrow> DeltaCalculator
     \<Rightarrow> (js_error + DeltaResult) \<times> path list \<times> DeltaCalculator" where
  "getChangedDependencies env modifiedFiles' deletedFiles' s =
     (case getTransformerOptions env s of
        (Inl e, s1) \<Rightarrow> (Inl e, modifiedFiles', s1)
      | (Inr t, s1) \<Rightarrow>
          (let transformerOptions' = (t, opt_type (options s1)) in
           if Map_size (dependencies (graph s1)) = 0
           then (case initialTraverseDependencies env (graph s1) transformerOptions' of
                   Rejected e g' \<Rightarrow> (Inl e, modifiedFiles', s1\<lparr>graph := g'\<rparr>)
                 | Resolved added g' \<Rightarrow>
                     (Inr \<lparr>modified = added, deleted = [], reset = True\<rparr>,
                      modifiedFiles', s1\<lparr>graph := g'\<rparr>))
           else
             (let modifiedFiles'' = invalidateDependents (graph s1) deletedFiles' modifiedFiles';
                  modifiedDependencies =
                    filter (\<lambda>p. Map_has (dependencies (graph s1)) p) modifiedFiles''
              in if length modifiedDependencies = 0
                 then (Inr \<lparr>modified = [], deleted = [], reset = False\<rparr>, modifiedFiles'', s1)
                 else (case traverseDependencies env modifiedDependencies transformerOptions'
                              (graph s1) of
                         Rejected e g' \<Rightarrow> (Inl e, modifiedFiles'', s1\<lparr>graph := g'\<rparr>)
                       | Resolved (added, deleted') g' \<Rightarrow>
                           (Inr \<lparr>modified = added, deleted = deleted', reset = False\<rparr>,
                            modifiedFiles'', s1\<lparr>graph := g'\<rparr>)))))"

text \<open>
  \<^verbatim>\<open>getDelta\<close>. The pending sets are taken and replaced by empty ones, then the build is
  started and awaited. \<open>arriving\<close> are the file events that the watcher delivers while the
  call waits for the build: the handler runs on the calculator's fields, the build on the
  sets taken before and on the graph. After the build, the error branch puts the taken paths
  back and clears the graph when its size has changed; the other branch answers a reset
  request with the whole reordered graph.
\<close>

definition getDelta ::
  "collaborators \<Rightarrow> bool \<Rightarrow> file_event list \<Rightarrow> DeltaCalculator
     \<Rightarrow> (js_error + DeltaResult) \<times> DeltaCalculator" where
  "getDelta env reset' arriving s =
     (let modifiedFiles' = modifiedFiles s;
          s1 = s\<lparr>modifiedFiles := []\<rparr>;
          deletedFiles' = deletedFiles s1;
          s2 = s1\<lparr>deletedFiles := []\<rparr>;
          numDependencies = Map_size (dependencies (graph s2));
          s3 = handleMultipleFileChanges arriving s2
      in case getChangedDependencies env modifiedFiles' deletedFiles' s3 of
           (Inl error, modifiedFiles'', s4) \<Rightarrow>
             (let s5 = s4\<lparr>modifiedFiles := fold Set_add modifiedFiles'' (modifiedFiles s4)\<rparr>;
                  s6 = s5\<lparr>deletedFiles := fold Set_add deletedFiles' (deletedFiles s5)\<rparr>;
                  s7 = (if Map_size (dependencies (graph s6)) \<noteq> numDependencies
                        then s6\<lparr>graph := (graph s6)\<lparr>dependencies := []\<rparr>\<rparr>
                        else s6)
              in (Inl error, s7))
         | (Inr result, modifiedFiles'', s4) \<Rightarrow>
             (if reset'
              then (let s5 = s4\<lparr>graph := reorderGraph env (graph s4)\<rparr>
                    in (Inr \<lparr>modified = dependencies (graph s5), deleted = [], reset = True\<rparr>, s5))
              else (Inr result, s4)))"

text \<open>
  The life of a calculator is a sequence of operations on it: batches of file events from
  the watcher, calls of \<^verbatim>\<open>getDelta\<close> (with the events that arrive during the build),
  calls of \<^verbatim>\<open>getTransformerOptions\<close>, and \<^verbatim>\<open>end\<close>. \<open>step\<close> runs one operation and
  says whether it threw; \<open>run\<close> lists the outcome of every operation in turn.

  The watcher calls the calculator's handler only while the handler is registered with it:
  the constructor registers it and \<^verbatim>\<open>end\<close> removes it, so after \<^verbatim>\<open>end\<close> the events of
  the watcher do not reach the calculator.
\<close>

definition delivered :: "DeltaCalculator \<Rightarrow> file_event list \<Rightarrow> file_event list" where
  "delivered s evs = (if watching s then evs else [])"

datatype operation =
  FileChanges "file_event list"
| GetDelta bool "file_event list"
| GetTransformerOptions
| End

fun step :: "collaborators \<Rightarrow> operation \<Rightarrow> DeltaCalculator \<Rightarrow> bool \<times> DeltaCalculator" where
  "step env (FileChanges evs) s = (False, handleMultipleFileChanges (delivered s evs) s)"
| "step env (GetDelta r evs) s =
     (case getDelta env r (delivered s evs) s of
        (Inl e, s') \<Rightarrow> (True, s')
      | (Inr d, s') \<Rightarrow> (False, s'))"
| "step env GetTransformerOptions s =
     (case getTransformerOptions env s of (Inl e, s') \<Rightarrow> (True, s') | (Inr t, s') \<Rightarrow> (False, s'))"
| "step env End s = (False, end_DeltaCalculator s)"

fun run :: "collaborators \<Rightarrow> operation list \<Rightarrow> DeltaCalculator \<Rightarrow> (bool \<times> DeltaCalculator) list" where
  "run env [] s = []"
| "run env (x # xs) s = (let (threw, s') = step env x s in (threw, s') # run env xs s')"

section \<open>The live update server\<close>

text \<open>
  Modelled from the spec: the Live Update Server (\<^verbatim>\<open>HmrServer\<close>) is not among the sources,
  only its test is. The spec gives its wire protocol (one message per line, \<^verbatim>\<open>type\<close>
  discriminates) and what a connection does on a change notification: it computes
  \<^verbatim>\<open>getDelta({reset: false})\<close> and sends \<^verbatim>\<open>update-start\<close>, then \<^verbatim>\<open>update\<close> or
  \<^verbatim>\<open>error\<close>, then \<^verbatim>\<open>update-done\<close>. The update lists the modified modules in order,
  each with the id that the connection's id function gives its path and with its code
  wrapped; the error is the thrown value normalized to a type, a message and a list of one
  entry with description, file name and line number, the fields taken from the thrown value
  as far as it has them.
\<close>

record hmr_module =
  module_id :: string
  module_code :: string

text \<open>Modelled from the spec: the body of an \<^verbatim>\<open>update\<close> message.\<close>

record update_body =
  modules :: "hmr_module list"
  sourceURLs :: "(string \<times> string) list"
  sourceMappingURLs :: "(string \<times> string) list"

text \<open>Modelled from the spec: an entry of the \<^verbatim>\<open>errors\<close> list of an error body.\<close>

record error_entry =
  description :: string
  filename :: "string option"
  lineNumber :: "int option"

text \<open>Modelled from the spec: the body of an \<^verbatim>\<open>error\<close> message.\<close>

record error_body =
  body_type :: "string option"
  body_message :: string
  errors :: "error_entry list"

text \<open>Modelled from the spec: the four messages of the wire protocol.\<close>

datatype message =
  UpdateStart
| Update update_body
| ErrorMessage error_body
| UpdateDone

text \<open>
  Modelled from the spec: what a connection holds, the function that assigns a module id to
  a path and the function that wraps a module's code with its id and the ids of its
  dependencies (the spec does not give the text of the wrapper).
\<close>

record connection =
  createModuleId :: "path \<Rightarrow> string"
  wrapModule :: "(path \<Rightarrow> string) \<Rightarrow> DependencyEdge \<Rightarrow> string"

text \<open>Modelled from the spec: the failure payload.\<close>

definition normalizeError :: "js_error \<Rightarrow> error_body" where
  "normalizeError e =
     \<lparr>body_type = err_type e, body_message = err_message e,
      errors = [\<lparr>description = err_message e, filename = err_filename e,
                 lineNumber = err_lineNumber e\<rparr>]\<rparr>"

text \<open>Modelled from the spec: the success payload.\<close>

definition prepareUpdate :: "connection \<Rightarrow> DeltaResult \<Rightarrow> update_body" where
  "prepareUpdate c d =
     \<lparr>modules = map (\<lambda>(p, e). \<lparr>module_id = createModuleId c p,
                                   module_code = wrapModule c (createModuleId c) e\<rparr>)
                     (modified d),
      sourceURLs = List.map_filter
                     (\<lambda>(p, e). map_option (Pair (createModuleId c p)) (sourceURL (edge_output e)))
                     (modified d),
      sourceMappingURLs = List.map_filter
                     (\<lambda>(p, e). map_option (Pair (createModuleId c p))
                                  (sourceMappingURL (edge_output e)))
                     (modified d)\<rparr>"

text \<open>
  Modelled from the spec: the handler of a change notification. It answers with the
  messages it has sent, in order, and the calculator; it has no error result of its own.
\<close>

definition onChange ::
  "connection \<Rightarrow> collaborators \<Rightarrow> file_event list \<Rightarrow> DeltaCalculator
     \<Rightarrow> message list \<times> DeltaCalculator" where
  "onChange c env arriving s =
     (let sent0 = [UpdateStart];
          (r, s') = getDelta env False arriving s;
          sent1 = sent0 @ [case r of
                             Inr d \<Rightarrow> Update (prepareUpdate c d)
                           | Inl e \<Rightarrow> ErrorMessage (normalizeError e)]
      in (sent1 @ [UpdateDone], s'))"

section \<open>A small project\<close>

text \<open>
  An entry module that requires \<^verbatim>\<open>/a.js\<close>, which requires \<^verbatim>\<open>/b.js\<close>; the options of the
  test file; the transform error that the test file throws; a traversal that resolves with
  the edges of the paths it is given, and one that rejects.
\<close>

definition example_options :: Options where
  "example_options =
     \<lparr>opt_assetPlugins = [], opt_customTransformOptions = [], opt_dev = True,
      opt_entryPoints = [''/entry.js''], opt_hot = True, opt_minify = False,
      opt_platform = Some ''ios'', opt_type = Module\<rparr>"

definition example_edge :: "path \<Rightarrow> (string \<times> path) list \<Rightarrow> path list \<Rightarrow> DependencyEdge" where
  "example_edge p deps dependents =
     \<lparr>edge_dependencies = deps, inverseDependencies = dependents, edge_path = p,
      edge_output = \<lparr>code = ''__d(function() {});'', output_type = ''module'',
                     sourceURL = None, sourceMappingURL = None\<rparr>\<rparr>"

definition example_modules :: "(path \<times> DependencyEdge) list" where
  "example_modules =
     [(''/entry.js'', example_edge ''/entry.js'' [(''./a'', ''/a.js'')] []),
      (''/a.js'', example_edge ''/a.js'' [(''./b'', ''/b.js'')] [''/entry.js'']),
      (''/b.js'', example_edge ''/b.js'' [] [''/a.js''])]"

definition example_error :: js_error where
  "example_error =
     \<lparr>err_type = Some ''TransformError'', err_message = ''test syntax error'',
      err_filename = Some ''EntryPoint.js'', err_lineNumber = Some 123\<rparr>"

definition example_collaborators :: collaborators where
  "example_collaborators =
     \<lparr>getGlobalTransformOptions = (False, ''/root''),
      getTransformOptionsForEntryFiles = (\<lambda>entries devPlatform getDependencies. Inr IRUndefined),
      initialTraverseDependencies =
        (\<lambda>g t. Resolved example_modules (g\<lparr>dependencies := example_modules\<rparr>)),
      traverseDependencies =
        (\<lambda>paths t g. Resolved (filter (\<lambda>(p, e). p \<in> set paths) (dependencies g), []) g),
      reorderGraph = (\<lambda>g. g)\<rparr>"

definition example_failing :: collaborators where
  "example_failing =
     example_collaborators\<lparr>traverseDependencies := (\<lambda>paths t g. Rejected example_error g)\<rparr>"

text \<open>A traversal that has dropped the first edge of the graph when it rejects.\<close>

definition example_failing_midway :: collaborators where
  "example_failing_midway =
     example_collaborators
       \<lparr>traverseDependencies :=
          (\<lambda>paths t g. Rejected example_error (g\<lparr>dependencies := tl (dependencies g)\<rparr>))\<rparr>"

text \<open>The id function of the test file; the wrapper is left as the bare code.\<close>

definition example_connection :: connection where
  "example_connection =
     \<lparr>createModuleId = (\<lambda>p. p @ ''-id''),
      wrapModule = (\<lambda>idOf e. code (edge_output e))\<rparr>"

definition example_transformerOptions :: JSTransformerOptions where
  "example_transformerOptions =
     \<lparr>assetDataPlugins = [], customTransformOptions = [], enableBabelRCLookup = False,
      dev = True, hot = True, inlineRequires = IRBool False, minify = False,
      platform = Some ''ios'', projectRoot = ''/root''\<rparr>"

text \<open>The calculator after its first build of the project.\<close>

definition example_built :: DeltaCalculator where
  "example_built =
     \<lparr>options = example_options, transformerOptions = Some example_transformerOptions,
      deletedFiles = [], modifiedFiles = [],
      graph = \<lparr>dependencies = example_modules, entryPoints = [''/entry.js'']\<rparr>,
      watching = True, listeners = [], emitted = 0\<rparr>"

text \<open>No path is pending both as modified and as deleted.\<close>

definition pending_disjoint :: "DeltaCalculator \<Rightarrow> bool" where
  "pending_disjoint s \<longleftrightarrow> (\<forall>p\<in>set (modifiedFiles s). p \<notin> set (deletedFiles s))"

text \<open>A graph that has edges comes with transformer options that are known.\<close>

definition memoized :: "DeltaCalculator \<Rightarrow> bool" where
  "memoized s \<longleftrightarrow> dependencies (graph s) = [] \<or> transformerOptions s \<noteq> None"

section \<open>Sets, maps and the fields an operation leaves alone\<close>

lemma set_Set_add: "set (Set_add x xs) = insert x (set xs)"
  by (auto simp: Set_add_def)

lemma set_Set_delete: "set (Set_delete x xs) = set xs - {x}"
  by (simp add: Set_delete_def)

lemma set_fold_Set_add: "set (fold Set_add ys xs) = set ys \<union> set xs"
  by (induction ys arbitrary: xs) (auto simp: set_Set_add)

lemma Map_has_iff: "Map_has m k \<longleftrightarrow> k \<in> fst ` set m"
proof (cases "map_of m k")
  case None
  then have "k \<notin> fst ` set m" by (simp add: map_of_eq_None_iff)
  with None show ?thesis by (simp add: Map_has_def)
next
  case (Some v)
  then have "(k, v) \<in> set m" by (rule map_of_SomeD)
  then have "k \<in> fst ` set m" by force
  with Some show ?thesis by (simp add: Map_has_def)
qed

lemma set_invalidateDependents:
  "set (invalidateDependents g ds ms) =
     set ms \<union> {p. \<exists>d\<in>set ds. \<exists>e. Map_get (dependencies g) d = Some e \<and> p \<in> set (inverseDependencies e)}"
proof (induction ds arbitrary: ms)
  case Nil
  then show ?case by (simp add: invalidateDependents_def)
next
  case (Cons d ds)
  have step: "invalidateDependents g (d # ds) ms =
      invalidateDependents g ds
        (case Map_get (dependencies g) d of None \<Rightarrow> ms
         | Some edge \<Rightarrow> fold Set_add (inverseDependencies edge) ms)"
    by (simp add: invalidateDependents_def)
  show ?case
    unfolding step Cons.IH
    by (cases "Map_get (dependencies g) d") (auto simp: set_fold_Set_add)
qed

lemma handleFileChange_frame:
  "\<exists>D M E. handleFileChange ev s = s\<lparr>deletedFiles := D, modifiedFiles := M, emitted := E\<rparr>"
  by (simp add: handleFileChange_def Let_def) blast

lemma handleMultipleFileChanges_frame:
  "\<exists>D M E. handleMultipleFileChanges evs s = s\<lparr>deletedFiles := D, modifiedFiles := M, emitted := E\<rparr>"
proof (induction evs arbitrary: s)
  case Nil
  have "s = s\<lparr>deletedFiles := deletedFiles s, modifiedFiles := modifiedFiles s, emitted := emitted s\<rparr>"
    by simp
  then show ?case unfolding handleMultipleFileChanges_def fold_simps by blast
next
  case (Cons ev evs)
  obtain D M E where 1: "handleFileChange ev s = s\<lparr>deletedFiles := D, modifiedFiles := M, emitted := E\<rparr>"
    using handleFileChange_frame by blast
  obtain D' M' E' where 2: "handleMultipleFileChanges evs (handleFileChange ev s) =
      (handleFileChange ev s)\<lparr>deletedFiles := D', modifiedFiles := M', emitted := E'\<rparr>"
    using Cons.IH by blast
  have "handleMultipleFileChanges (ev # evs) s = s\<lparr>deletedFiles := D', modifiedFiles := M', emitted := E'\<rparr>"
    using 2 unfolding 1 by (simp add: handleMultipleFileChanges_def 1)
  then show ?case by blast
qed

lemma handleMultipleFileChanges_fields:
  "graph (handleMultipleFileChanges evs s) = graph s"
  "options (handleMultipleFileChanges evs s) = options s"
  "transformerOptions (handleMultipleFileChanges evs s) = transformerOptions s"
  "watching (handleMultipleFileChanges evs s) = watching s"
  "listeners (handleMultipleFileChanges evs s) = listeners s"
proof -
  obtain D M E where
    "handleMultipleFileChanges evs s = s\<lparr>deletedFiles := D, modifiedFiles := M, emitted := E\<rparr>"
    using handleMultipleFileChanges_frame by blast
  then show "graph (handleMultipleFileChanges evs s) = graph s"
    "options (handleMultipleFileChanges evs s) = options s"
    "transformerOptions (handleMultipleFileChanges evs s) = transformerOptions s"
    "watching (handleMultipleFileChanges evs s) = watching s"
    "listeners (handleMultipleFileChanges evs s) = listeners s"
    by simp_all
qed

lemma getTransformerOptions_pending:
  "getTransformerOptions env (s\<lparr>deletedFiles := D, modifiedFiles := M, emitted := E\<rparr>) =
     (case getTransformerOptions env s of
        (r, s') \<Rightarrow> (r, s'\<lparr>deletedFiles := D, modifiedFiles := M, emitted := E\<rparr>))"
  by (simp add: getTransformerOptions_def split: option.splits sum.splits)

lemma getTransformerOptions_frame:
  "getTransformerOptions env s = (r, s') \<Longrightarrow>
     graph s' = graph s \<and> options s' = options s \<and> modifiedFiles s' = modifiedFiles s \<and>
     deletedFiles s' = deletedFiles s \<and> emitted s' = emitted s \<and>
     watching s' = watching s \<and> listeners s' = listeners s"
  by (auto simp: getTransformerOptions_def split: option.splits sum.splits)

lemma getChangedDependencies_pending:
  "getChangedDependencies env m d (s\<lparr>deletedFiles := D, modifiedFiles := M, emitted := E\<rparr>) =
     (case getChangedDependencies env m d s of
        (r, m', s') \<Rightarrow> (r, m', s'\<lparr>deletedFiles := D, modifiedFiles := M, emitted := E\<rparr>))"
  unfolding getChangedDependencies_def getTransformerOptions_pending
  by (cases "getTransformerOptions env s")
     (auto simp: Let_def dest!: getTransformerOptions_frame split: sum.splits settled.splits prod.splits)

lemma getChangedDependencies_frame:
  assumes "getChangedDependencies env m d s = (r, m', s')"
  shows "modifiedFiles s' = modifiedFiles s" and "deletedFiles s' = deletedFiles s"
    and "options s' = options s" and "emitted s' = emitted s"
    and "watching s' = watching s" and "listeners s' = listeners s"
    and "set m \<subseteq> set m'"
proof -
  obtain r0 s1 where g: "getTransformerOptions env s = (r0, s1)"
    by (cases "getTransformerOptions env s")
  note f = getTransformerOptions_frame [OF g]
  from assms g f show "modifiedFiles s' = modifiedFiles s"
    by (auto simp: getChangedDependencies_def Let_def split: sum.splits settled.splits prod.splits if_splits)
  from assms g f show "deletedFiles s' = deletedFiles s"
    by (auto simp: getChangedDependencies_def Let_def split: sum.splits settled.splits prod.splits if_splits)
  from assms g f show "options s' = options s"
    by (auto simp: getChangedDependencies_def Let_def split: sum.splits settled.splits prod.splits if_splits)
  from assms g f show "emitted s' = emitted s"
    by (auto simp: getChangedDependencies_def Let_def split: sum.splits settled.splits prod.splits if_splits)
  from assms g f show "watching s' = watching s"
    by (auto simp: getChangedDependencies_def Let_def split: sum.splits settled.splits prod.splits if_splits)
  from assms g f show "listeners s' = listeners s"
    by (auto simp: getChangedDependencies_def Let_def split: sum.splits settled.splits prod.splits if_splits)
  from assms g show "set m \<subseteq> set m'"
    by (auto simp: getChangedDependencies_def Let_def set_invalidateDependents
             split: sum.splits settled.splits prod.splits if_splits)
qed

text \<open>
  The build of a \<^verbatim>\<open>getDelta\<close> call is the build of the sets it took, on the calculator as
  it was: the events that arrive meanwhile only change what is pending.
\<close>

lemma getDelta_build:
  assumes "getChangedDependencies env (modifiedFiles s) (deletedFiles s) s = (r0, m', s4)"
  shows "\<exists>D M E. handleMultipleFileChanges evs (s\<lparr>modifiedFiles := [], deletedFiles := []\<rparr>)
                   = s\<lparr>deletedFiles := D, modifiedFiles := M, emitted := E\<rparr>
           \<and> getChangedDependencies env (modifiedFiles s) (deletedFiles s)
               (handleMultipleFileChanges evs (s\<lparr>modifiedFiles := [], deletedFiles := []\<rparr>))
             = (r0, m', s4\<lparr>deletedFiles := D, modifiedFiles := M, emitted := E\<rparr>)"
proof -
  obtain D M E where h: "handleMultipleFileChanges evs (s\<lparr>modifiedFiles := [], deletedFiles := []\<rparr>)
      = s\<lparr>modifiedFiles := [], deletedFiles := []\<rparr>\<lparr>deletedFiles := D, modifiedFiles := M, emitted := E\<rparr>"
    using handleMultipleFileChanges_frame by blast
  then have h': "handleMultipleFileChanges evs (s\<lparr>modifiedFiles := [], deletedFiles := []\<rparr>)
      = s\<lparr>deletedFiles := D, modifiedFiles := M, emitted := E\<rparr>"
    by simp
  show ?thesis
    unfolding h' getChangedDependencies_pending assms by auto
qed

text \<open>
  On an empty graph the partial traversal plays no part: whatever it is, the call does the
  same.
\<close>

lemma calcTransformerOptions_other_traversal:
  "calcTransformerOptions (env\<lparr>traverseDependencies := f\<rparr>) opts = calcTransformerOptions env opts"
  by (simp add: calcTransformerOptions_def Let_def split_beta cong: if_cong)

lemma getTransformerOptions_other_traversal:
  "getTransformerOptions (env\<lparr>traverseDependencies := f\<rparr>) s = getTransformerOptions env s"
  by (simp add: getTransformerOptions_def calcTransformerOptions_other_traversal
        split: option.splits)

lemma getChangedDependencies_initial:
  assumes "dependencies (graph s) = []"
  shows "getChangedDependencies (env\<lparr>traverseDependencies := f\<rparr>) m d s = getChangedDependencies env m d s"
proof -
  obtain r0 s1 where g: "getTransformerOptions env s = (r0, s1)"
    by (cases "getTransformerOptions env s")
  from getTransformerOptions_frame [OF g] assms have "dependencies (graph s1) = []" by simp
  then show ?thesis
    by (simp add: getChangedDependencies_def getTransformerOptions_other_traversal g
          Map_size_def Let_def split: sum.splits)
qed

lemma getDelta_initial:
  assumes "dependencies (graph s) = []"
  shows "getDelta (env\<lparr>traverseDependencies := f\<rparr>) r evs s = getDelta env r evs s"
proof -
  have "dependencies (graph (handleMultipleFileChanges evs (s\<lparr>modifiedFiles := [], deletedFiles := []\<rparr>))) = []"
    using assms by (simp add: handleMultipleFileChanges_fields)
  from getChangedDependencies_initial [OF this] show ?thesis
    by (simp add: getDelta_def Let_def split: prod.splits sum.splits)
qed

text \<open>
  On a graph that has edges, the partial traversal matters only at the list of tracked
  paths that the call computes.
\<close>

lemma getChangedDependencies_agree:
  assumes "\<forall>t. f (filter (Map_has (dependencies (graph s))) (invalidateDependents (graph s) d m)) t (graph s)
             = traverseDependencies env
                 (filter (Map_has (dependencies (graph s))) (invalidateDependents (graph s) d m)) t (graph s)"
  shows "getChangedDependencies (env\<lparr>traverseDependencies := f\<rparr>) m d s = getChangedDependencies env m d s"
proof -
  obtain r0 s1 where g: "getTransformerOptions env s = (r0, s1)"
    by (cases "getTransformerOptions env s")
  from getTransformerOptions_frame [OF g] have gr: "graph s1 = graph s" by simp
  show ?thesis
    using assms
    by (simp add: getChangedDependencies_def getTransformerOptions_other_traversal g gr
          Map_size_def Let_def split: sum.splits)
qed

section \<open>What file events do to the pending sets\<close>

lemma handleFileChange_pending_union:
  "set (modifiedFiles (handleFileChange ev s)) \<union> set (deletedFiles (handleFileChange ev s)) =
     insert (filePath ev) (set (modifiedFiles s) \<union> set (deletedFiles s))"
  by (auto simp: handleFileChange_def Let_def set_Set_add set_Set_delete)

lemma handleMultipleFileChanges_pending_union:
  "set (modifiedFiles (handleMultipleFileChanges evs s))
     \<union> set (deletedFiles (handleMultipleFileChanges evs s)) =
     filePath ` set evs \<union> (set (modifiedFiles s) \<union> set (deletedFiles s))"
proof (induction evs arbitrary: s)
  case Nil
  then show ?case by (simp add: handleMultipleFileChanges_def)
next
  case (Cons ev evs)
  have "handleMultipleFileChanges (ev # evs) s = handleMultipleFileChanges evs (handleFileChange ev s)"
    by (simp add: handleMultipleFileChanges_def)
  then show ?case
    using Cons.IH [of "handleFileChange ev s"] handleFileChange_pending_union [of ev s]
    by auto
qed

lemma handleFileChange_disjoint:
  "pending_disjoint s \<Longrightarrow> pending_disjoint (handleFileChange ev s)"
  by (auto simp: pending_disjoint_def handleFileChange_def Let_def set_Set_add set_Set_delete)

lemma handleMultipleFileChanges_disjoint:
  "pending_disjoint s \<Longrightarrow> pending_disjoint (handleMultipleFileChanges evs s)"
proof (induction evs arbitrary: s)
  case Nil
  then show ?case by (simp add: handleMultipleFileChanges_def)
next
  case (Cons ev evs)
  have "handleMultipleFileChanges (ev # evs) s = handleMultipleFileChanges evs (handleFileChange ev s)"
    by (simp add: handleMultipleFileChanges_def)
  with Cons show ?case by (simp add: handleFileChange_disjoint)
qed

section \<open>Evaluating the small project\<close>

lemmas example_defs =
  example_built_def example_modules_def example_edge_def example_options_def
  example_transformerOptions_def example_error_def example_collaborators_def
  example_failing_def example_failing_midway_def

lemmas model_defs =
  getDelta_def getChangedDependencies_def getTransformerOptions_def calcTransformerOptions_def
  invalidateDependents_def handleMultipleFileChanges_def handleFileChange_def
  new_DeltaCalculator_def end_DeltaCalculator_def delivered_def
  Map_size_def Map_has_def Map_get_def Set_add_def Set_delete_def Let_def

section \<open>The paths submitted to the traversal\<close>

text \<open>
  C1, as amended. A \<^verbatim>\<open>getDelta\<close> call on a graph that has edges enlarges the modified
  paths it took with the \<^verbatim>\<open>inverseDependencies\<close> of every deleted path it took that has an
  edge, and keeps of them the paths that have an edge. This list \<open>sub\<close> holds exactly the
  tracked paths that were changed or that depend on a deleted module, and no path without
  an edge. The partial traversal is consulted at this list and the current graph only: a
  traversal that agrees with it there gives the same call. When the traversal of \<open>sub\<close>
  resolves, a call without reset returns what the traversal answered (its added map as
  modified, its deleted set), and a call with reset returns the whole reordered graph. So
  the modified map returned comes from the submitted list, but it is not in general the
  set of the submitted modules.
\<close>

theorem getDelta_submits_tracked_paths:
  assumes nonempty: "dependencies (graph s) \<noteq> []"
  shows "let g = graph s;
             sub = filter (Map_has (dependencies g))
                     (invalidateDependents g (deletedFiles s) (modifiedFiles s))
         in set sub = {p. Map_has (dependencies g) p
                          \<and> (p \<in> set (modifiedFiles s)
                             \<or> (\<exists>d\<in>set (deletedFiles s). \<exists>e. Map_get (dependencies g) d = Some e
                                   \<and> p \<in> set (inverseDependencies e)))}
          \<and> (\<forall>f. (\<forall>t. f sub t g = traverseDependencies env sub t g)
                 \<longrightarrow> getDelta (env\<lparr>traverseDependencies := f\<rparr>) r evs s = getDelta env r evs s)
          \<and> (\<forall>t s1 added dl g'.
                 getTransformerOptions env s = (Inr t, s1)
                 \<longrightarrow> sub \<noteq> []
                 \<longrightarrow> traverseDependencies env sub (t, opt_type (options s)) g = Resolved (added, dl) g'
                 \<longrightarrow> fst (getDelta env r evs s) =
                       (if r
                        then Inr \<lparr>modified = dependencies (reorderGraph env g'), deleted = [],
                                  reset = True\<rparr>
                        else Inr \<lparr>modified = added, deleted = dl, reset = False\<rparr>)
                     \<and> graph (snd (getDelta env r evs s)) = (if r then reorderGraph env g' else g'))"
proof -
  let ?g = "graph s"
  let ?sub = "filter (Map_has (dependencies ?g))
                (invalidateDependents ?g (deletedFiles s) (modifiedFiles s))"
  let ?s3 = "handleMultipleFileChanges evs (s\<lparr>modifiedFiles := [], deletedFiles := []\<rparr>)"
  have 1: "set ?sub = {p. Map_has (dependencies ?g) p
                          \<and> (p \<in> set (modifiedFiles s)
                             \<or> (\<exists>d\<in>set (deletedFiles s). \<exists>e. Map_get (dependencies ?g) d = Some e
                                   \<and> p \<in> set (inverseDependencies e)))}"
    by (auto simp: set_invalidateDependents)
  have 2: "getDelta (env\<lparr>traverseDependencies := f\<rparr>) r evs s = getDelta env r evs s"
    if agree: "\<forall>t. f ?sub t ?g = traverseDependencies env ?sub t ?g" for f
  proof -
    have gr: "graph ?s3 = ?g" by (simp add: handleMultipleFileChanges_fields)
    have "getChangedDependencies (env\<lparr>traverseDependencies := f\<rparr>) (modifiedFiles s) (deletedFiles s) ?s3
        = getChangedDependencies env (modifiedFiles s) (deletedFiles s) ?s3"
      by (rule getChangedDependencies_agree) (simp add: gr agree)
    then show ?thesis
      by (simp add: getDelta_def Let_def split: prod.splits sum.splits)
  qed
  have 3: "fst (getDelta env r evs s) =
             (if r
              then Inr \<lparr>modified = dependencies (reorderGraph env g'), deleted = [], reset = True\<rparr>
              else Inr \<lparr>modified = added, deleted = dl, reset = False\<rparr>)
         \<and> graph (snd (getDelta env r evs s)) = (if r then reorderGraph env g' else g')"
    if opts: "getTransformerOptions env s = (Inr t, s1)" and ne: "?sub \<noteq> []"
      and tr: "traverseDependencies env ?sub (t, opt_type (options s)) ?g = Resolved (added, dl) g'"
    for t s1 added dl g'
  proof -
    note f = getTransformerOptions_frame [OF opts]
    have b0: "getChangedDependencies env (modifiedFiles s) (deletedFiles s) s =
        (Inr \<lparr>modified = added, deleted = dl, reset = False\<rparr>,
         invalidateDependents ?g (deletedFiles s) (modifiedFiles s), s1\<lparr>graph := g'\<rparr>)"
      using nonempty ne tr f
      by (simp add: getChangedDependencies_def opts Map_size_def Let_def)
    from getDelta_build [OF b0, of evs] obtain D M E where
      b: "getChangedDependencies env (modifiedFiles s) (deletedFiles s) ?s3
             = (Inr \<lparr>modified = added, deleted = dl, reset = False\<rparr>,
                invalidateDependents ?g (deletedFiles s) (modifiedFiles s),
                s1\<lparr>graph := g'\<rparr>\<lparr>deletedFiles := D, modifiedFiles := M, emitted := E\<rparr>)"
      by blast
    show ?thesis
      by (simp add: getDelta_def Let_def b)
  qed
  from 1 2 3 show ?thesis
    unfolding Let_def by blast
qed

text \<open>
  The entry module was changed, an untracked file was changed and \<^verbatim>\<open>/b.js\<close> was deleted:
  the entry module and \<^verbatim>\<open>/a.js\<close>, which requires \<^verbatim>\<open>/b.js\<close>, are submitted.
\<close>

theorem getDelta_submits_tracked_paths_witness:
  "dependencies (graph (example_built\<lparr>modifiedFiles := [''/entry.js'', ''/untracked.js''],
                                       deletedFiles := [''/b.js'']\<rparr>)) \<noteq> []
   \<and> filter (Map_has (dependencies (graph example_built)))
       (invalidateDependents (graph example_built) [''/b.js''] [''/entry.js'', ''/untracked.js''])
     = [''/entry.js'', ''/a.js'']
   \<and> fst (getDelta example_collaborators False []
            (example_built\<lparr>modifiedFiles := [''/entry.js'', ''/untracked.js''],
                           deletedFiles := [''/b.js'']\<rparr>))
     = Inr \<lparr>modified = take 2 example_modules, deleted = [], reset = False\<rparr>"
proof -
  let ?s = "example_built\<lparr>modifiedFiles := [''/entry.js'', ''/untracked.js''],
                          deletedFiles := [''/b.js'']\<rparr>"
  have ne: "dependencies (graph ?s) \<noteq> []"
    by (simp add: example_defs)
  have sub: "filter (Map_has (dependencies (graph example_built)))
       (invalidateDependents (graph example_built) [''/b.js''] [''/entry.js'', ''/untracked.js''])
     = [''/entry.js'', ''/a.js'']"
    by (simp add: model_defs example_defs)
  have opts: "getTransformerOptions example_collaborators ?s = (Inr example_transformerOptions, ?s)"
    by (simp add: getTransformerOptions_def example_built_def)
  have tr: "traverseDependencies example_collaborators [''/entry.js'', ''/a.js'']
              (example_transformerOptions, opt_type (options ?s)) (graph example_built)
            = Resolved (take 2 example_modules, []) (graph example_built)"
    by (simp add: example_defs)
  have g: "graph ?s = graph example_built"
    "modifiedFiles ?s = [''/entry.js'', ''/untracked.js'']" "deletedFiles ?s = [''/b.js'']"
    by simp_all
  note c = getDelta_submits_tracked_paths [OF ne, of example_collaborators False "[]",
      unfolded Let_def g sub]
  note c3 = c [THEN conjunct2, THEN conjunct2, rule_format, OF opts _ tr]
  from c3 have "fst (getDelta example_collaborators False [] ?s)
     = Inr \<lparr>modified = take 2 example_modules, deleted = [], reset = False\<rparr>"
    by simp
  with ne sub show ?thesis by blast
qed

text \<open>
  C1, as the claim has it: the modified set returned would hold exactly the tracked modules
  that were changed or depend on a deleted module. Only \<^verbatim>\<open>/b.js\<close> was changed, and only
  \<^verbatim>\<open>/b.js\<close> is submitted; the call is made with reset, and the modified map returned holds
  the entry module and \<^verbatim>\<open>/a.js\<close> as well, which were not changed and depend on no deleted
  module.
\<close>

theorem getDelta_reset_returns_unchanged_modules:
  "filter (Map_has (dependencies (graph example_built)))
     (invalidateDependents (graph example_built) [] [''/b.js''])
     = [''/b.js'']
   \<and> fst (getDelta example_collaborators True [] (example_built\<lparr>modifiedFiles := [''/b.js'']\<rparr>))
     = Inr \<lparr>modified = example_modules, deleted = [], reset = True\<rparr>
   \<and> map fst example_modules = [''/entry.js'', ''/a.js'', ''/b.js'']"
  by (simp add: model_defs example_defs)

section \<open>A build that throws\<close>



text \<open>
  C3. When a \<^verbatim>\<open>getDelta\<close> call throws, every modified path and every deleted path that it
  took out of the pending sets is pending again, in the set it came from, when the error
  reaches the caller.
\<close>

theorem getDelta_failure_restores:
  assumes "getDelta env r evs s = (Inl e, s')"
  shows "set (modifiedFiles s) \<subseteq> set (modifiedFiles s')
       \<and> set (deletedFiles s) \<subseteq> set (deletedFiles s')"
proof -
  let ?s3 = "handleMultipleFileChanges evs (s\<lparr>modifiedFiles := [], deletedFiles := []\<rparr>)"
  obtain r0 m' s4 where b: "getChangedDependencies env (modifiedFiles s) (deletedFiles s) ?s3 = (r0, m', s4)"
    by (cases "getChangedDependencies env (modifiedFiles s) (deletedFiles s) ?s3")
  note f = getChangedDependencies_frame [OF b]
  from assms b obtain e' where r0: "r0 = Inl e'"
    by (cases r0) (auto simp: getDelta_def Let_def split: if_splits)
  from assms b r0 have m: "set (modifiedFiles s') = set m' \<union> set (modifiedFiles s4)"
    and d: "set (deletedFiles s') = set (deletedFiles s) \<union> set (deletedFiles s4)"
    by (auto simp: getDelta_def Let_def set_fold_Set_add split: if_splits)
  from m d f(7) show ?thesis by auto
qed

text \<open>
  \<^verbatim>\<open>/a.js\<close> was changed and a file outside the graph was deleted; the entry module changes
  during the build, which fails. All three are pending afterwards.
\<close>

theorem getDelta_failure_restores_witness:
  "getDelta example_failing False [\<lparr>ev_type = ''change'', filePath = ''/entry.js''\<rparr>]
       (example_built\<lparr>modifiedFiles := [''/a.js''], deletedFiles := [''/gone.js'']\<rparr>)
     = (Inl example_error,
        example_built\<lparr>modifiedFiles := [''/entry.js'', ''/a.js''], deletedFiles := [''/gone.js''],
                      emitted := 1\<rparr>)
   \<and> set [''/a.js''] \<subseteq> set [''/entry.js'', ''/a.js'']
   \<and> set [''/gone.js''] \<subseteq> set [''/gone.js'']"
proof -
  let ?s = "example_built\<lparr>modifiedFiles := [''/a.js''], deletedFiles := [''/gone.js'']\<rparr>"
  let ?s' = "example_built\<lparr>modifiedFiles := [''/entry.js'', ''/a.js''],
                           deletedFiles := [''/gone.js''], emitted := 1\<rparr>"
  have h: "getDelta example_failing False [\<lparr>ev_type = ''change'', filePath = ''/entry.js''\<rparr>] ?s
         = (Inl example_error, ?s')"
    by (simp add: model_defs example_defs)
  from getDelta_failure_restores [OF h] h show ?thesis by simp
qed

section \<open>File events during a build\<close>

text \<open>
  C4. A \<^verbatim>\<open>getDelta\<close> call replaces both pending sets by empty ones before its build starts,
  so the file events that arrive during the build are applied to these new sets. Compared
  with the same call during which nothing arrives, the outcome and the graph are the same:
  the events are not part of the delta being computed. None of them is dropped: the path of
  every arriving event is pending afterwards. After a call that succeeds the pending sets
  are exactly what the arriving events make of two empty sets; after one that fails they
  hold these and the paths put back.
\<close>

theorem getDelta_arriving_events_queued:
  "let q = handleMultipleFileChanges evs (s\<lparr>modifiedFiles := [], deletedFiles := []\<rparr>);
       quiet = getDelta env r [] s;
       busy = getDelta env r evs s
   in fst busy = fst quiet
    \<and> graph (snd busy) = graph (snd quiet)
    \<and> filePath ` set evs \<subseteq> set (modifiedFiles (snd busy)) \<union> set (deletedFiles (snd busy))
    \<and> (case fst busy of
         Inr d \<Rightarrow> modifiedFiles (snd busy) = modifiedFiles q
                 \<and> deletedFiles (snd busy) = deletedFiles q
       | Inl e \<Rightarrow> set (modifiedFiles (snd busy)) =
                   set (modifiedFiles (snd quiet)) \<union> set (modifiedFiles q)
                 \<and> set (deletedFiles (snd busy)) =
                   set (deletedFiles (snd quiet)) \<union> set (deletedFiles q))"
proof -
  let ?s0 = "s\<lparr>modifiedFiles := [], deletedFiles := []\<rparr>"
  let ?q = "handleMultipleFileChanges evs ?s0"
  obtain r0 m' s4 where b0: "getChangedDependencies env (modifiedFiles s) (deletedFiles s) s = (r0, m', s4)"
    by (cases "getChangedDependencies env (modifiedFiles s) (deletedFiles s) s")
  from getDelta_build [OF b0, of evs] obtain D M E where
    h: "?q = s\<lparr>deletedFiles := D, modifiedFiles := M, emitted := E\<rparr>"
    and b: "getChangedDependencies env (modifiedFiles s) (deletedFiles s) ?q
             = (r0, m', s4\<lparr>deletedFiles := D, modifiedFiles := M, emitted := E\<rparr>)"
    by blast
  from getDelta_build [OF b0, of "[]"] obtain D0 M0 E0 where
    h0: "handleMultipleFileChanges [] ?s0 = s\<lparr>deletedFiles := D0, modifiedFiles := M0, emitted := E0\<rparr>"
    and b': "getChangedDependencies env (modifiedFiles s) (deletedFiles s) (handleMultipleFileChanges [] ?s0)
             = (r0, m', s4\<lparr>deletedFiles := D0, modifiedFiles := M0, emitted := E0\<rparr>)"
    by blast
  have "handleMultipleFileChanges [] ?s0 = ?s0" by (simp add: handleMultipleFileChanges_def)
  then have "deletedFiles (handleMultipleFileChanges [] ?s0) = []"
    and "modifiedFiles (handleMultipleFileChanges [] ?s0) = []"
    by simp_all
  then have e0: "D0 = []" "M0 = []" unfolding h0 by simp_all
  have qM: "modifiedFiles ?q = M" and qD: "deletedFiles ?q = D" unfolding h by simp_all
  have u: "filePath ` set evs \<subseteq> set M \<union> set D"
    using handleMultipleFileChanges_pending_union [of evs ?s0] unfolding qM qD by simp
  show ?thesis
  proof (cases r0)
    case (Inl e)
    show ?thesis
      using u unfolding Let_def qM qD
      by (simp add: getDelta_def Let_def b b' Inl e0 set_fold_Set_add) blast
  next
    case (Inr d)
    show ?thesis
      using u unfolding Let_def qM qD
      by (simp add: getDelta_def Let_def b b' Inr e0)
  qed
qed

text \<open>
  The entry module was changed; during its build \<^verbatim>\<open>/b.js\<close> is deleted. The delta holds the
  entry module only, and the deletion is what is pending afterwards.
\<close>

theorem getDelta_arriving_events_queued_witness:
  "getDelta example_collaborators False [\<lparr>ev_type = ''delete'', filePath = ''/b.js''\<rparr>]
       (example_built\<lparr>modifiedFiles := [''/entry.js'']\<rparr>)
     = (Inr \<lparr>modified = take 1 example_modules, deleted = [], reset = False\<rparr>,
        example_built\<lparr>deletedFiles := [''/b.js''], emitted := 1\<rparr>)
   \<and> fst (getDelta example_collaborators False [] (example_built\<lparr>modifiedFiles := [''/entry.js'']\<rparr>))
     = Inr \<lparr>modified = take 1 example_modules, deleted = [], reset = False\<rparr>"
proof -
  let ?s = "example_built\<lparr>modifiedFiles := [''/entry.js'']\<rparr>"
  let ?evs = "[\<lparr>ev_type = ''delete'', filePath = ''/b.js''\<rparr>]"
  have h: "getDelta example_collaborators False ?evs ?s
     = (Inr \<lparr>modified = take 1 example_modules, deleted = [], reset = False\<rparr>,
        example_built\<lparr>deletedFiles := [''/b.js''], emitted := 1\<rparr>)"
    by (simp add: model_defs example_defs)
  from getDelta_arriving_events_queued [of ?evs ?s example_collaborators False]
  have "fst (getDelta example_collaborators False ?evs ?s)
      = fst (getDelta example_collaborators False [] ?s)"
    unfolding Let_def by blast
  with h show ?thesis by simp
qed

section \<open>A reset request\<close>

text \<open>
  C5. A \<^verbatim>\<open>getDelta\<close> call with reset that does not throw answers with reset set, no deleted
  path, and as modified the dependencies map of the graph as it is after the build and the
  reordering that the call applies to it. The delta that the build itself produced is not
  part of the answer.
\<close>

theorem getDelta_reset_whole_graph:
  assumes "getDelta env True evs s = (Inr d, s')"
  shows "reset d \<and> deleted d = [] \<and> modified d = dependencies (graph s')
       \<and> (\<exists>d0 m' s4. getChangedDependencies env (modifiedFiles s) (deletedFiles s) s = (Inr d0, m', s4)
             \<and> graph s' = reorderGraph env (graph s4))"
proof -
  obtain r0 m' s4 where b0: "getChangedDependencies env (modifiedFiles s) (deletedFiles s) s = (r0, m', s4)"
    by (cases "getChangedDependencies env (modifiedFiles s) (deletedFiles s) s")
  from getDelta_build [OF b0, of evs] obtain D M E where
    b: "getChangedDependencies env (modifiedFiles s) (deletedFiles s)
               (handleMultipleFileChanges evs (s\<lparr>modifiedFiles := [], deletedFiles := []\<rparr>))
             = (r0, m', s4\<lparr>deletedFiles := D, modifiedFiles := M, emitted := E\<rparr>)"
    by blast
  from assms b obtain d0 where r0: "r0 = Inr d0"
    by (cases r0) (auto simp: getDelta_def Let_def)
  from assms have "reset d \<and> deleted d = [] \<and> modified d = dependencies (graph s')
      \<and> graph s' = reorderGraph env (graph s4)"
    by (auto simp: getDelta_def Let_def b r0)
  with b0 r0 show ?thesis by blast
qed

text \<open>
  Only \<^verbatim>\<open>/b.js\<close> was changed, and the build's own delta holds only that module; the answer
  to the reset request holds the three modules of the graph, in the order that the
  reordering gives them (here it reverses the map, to be seen).
\<close>

theorem getDelta_reset_whole_graph_witness:
  "getDelta (example_collaborators\<lparr>reorderGraph := (\<lambda>g. g\<lparr>dependencies := rev (dependencies g)\<rparr>)\<rparr>)
       True [] (example_built\<lparr>modifiedFiles := [''/b.js'']\<rparr>)
     = (Inr \<lparr>modified = rev example_modules, deleted = [], reset = True\<rparr>,
        example_built\<lparr>graph := \<lparr>dependencies = rev example_modules, entryPoints = [''/entry.js'']\<rparr>\<rparr>)
   \<and> reset \<lparr>modified = rev example_modules, deleted = [], reset = True\<rparr>
   \<and> fst (getChangedDependencies example_collaborators [''/b.js''] []
            (example_built\<lparr>modifiedFiles := [''/b.js'']\<rparr>))
     = Inr \<lparr>modified = drop 2 example_modules, deleted = [], reset = False\<rparr>"
proof -
  let ?env = "example_collaborators\<lparr>reorderGraph := (\<lambda>g. g\<lparr>dependencies := rev (dependencies g)\<rparr>)\<rparr>"
  let ?s = "example_built\<lparr>modifiedFiles := [''/b.js'']\<rparr>"
  have h: "getDelta ?env True [] ?s
     = (Inr \<lparr>modified = rev example_modules, deleted = [], reset = True\<rparr>,
        example_built\<lparr>graph := \<lparr>dependencies = rev example_modules, entryPoints = [''/entry.js'']\<rparr>\<rparr>)"
    by (simp add: model_defs example_defs)
  have b: "fst (getChangedDependencies example_collaborators [''/b.js''] [] ?s)
     = Inr \<lparr>modified = drop 2 example_modules, deleted = [], reset = False\<rparr>"
    by (simp add: model_defs example_defs)
  from getDelta_reset_whole_graph [OF h] h b show ?thesis by simp
qed

section \<open>Two invariants of a calculator's life\<close>

text \<open>
  The traversal runs only after the transformer options have been obtained, and they are
  kept from then on, so a graph with edges always comes with known options.
\<close>

lemma getChangedDependencies_memoized:
  assumes "getChangedDependencies env m d s = (r0, m', s4)"
  shows "transformerOptions s4 \<noteq> None
       \<or> ((\<exists>e. r0 = Inl e) \<and> graph s4 = graph s \<and> transformerOptions s4 = transformerOptions s)"
proof -
  obtain r1 s1 where g: "getTransformerOptions env s = (r1, s1)"
    by (cases "getTransformerOptions env s")
  show ?thesis
  proof (cases r1)
    case (Inl e)
    with g have "s1 = s"
      by (auto simp: getTransformerOptions_def split: option.splits sum.splits)
    with assms g Inl show ?thesis
      by (auto simp: getChangedDependencies_def)
  next
    case (Inr t)
    with g have "transformerOptions s1 = Some t"
      by (auto simp: getTransformerOptions_def split: option.splits sum.splits)
    with assms g Inr have "transformerOptions s4 = Some t"
      by (auto simp: getChangedDependencies_def Let_def split: settled.splits if_splits)
    then show ?thesis by simp
  qed
qed

lemma getDelta_memoized:
  assumes "memoized s"
  shows "memoized (snd (getDelta env r evs s))"
proof -
  obtain r0 m' s4 where b0: "getChangedDependencies env (modifiedFiles s) (deletedFiles s) s = (r0, m', s4)"
    by (cases "getChangedDependencies env (modifiedFiles s) (deletedFiles s) s")
  from getDelta_build [OF b0, of evs] obtain D M E where
    b: "getChangedDependencies env (modifiedFiles s) (deletedFiles s)
               (handleMultipleFileChanges evs (s\<lparr>modifiedFiles := [], deletedFiles := []\<rparr>))
             = (r0, m', s4\<lparr>deletedFiles := D, modifiedFiles := M, emitted := E\<rparr>)"
    by blast
  from getChangedDependencies_memoized [OF b0] assms show ?thesis
    by (cases r0) (auto simp: getDelta_def Let_def b memoized_def)
qed

lemma step_memoized:
  assumes "memoized s"
  shows "memoized (snd (step env x s))"
proof (cases x)
  case (FileChanges evs)
  with assms show ?thesis
    by (simp add: memoized_def handleMultipleFileChanges_fields)
next
  case (GetDelta r evs)
  have "snd (step env (GetDelta r evs) s) = snd (getDelta env r (delivered s evs) s)"
    by (simp split: prod.splits sum.splits)
  with GetDelta getDelta_memoized [OF assms] show ?thesis by simp
next
  case GetTransformerOptions
  with assms show ?thesis
    by (auto simp: memoized_def getTransformerOptions_def split: option.splits sum.splits)
next
  case End
  then show ?thesis
    by (simp add: memoized_def end_DeltaCalculator_def)
qed

lemma run_memoized:
  assumes "memoized s"
  shows "\<forall>(threw, s') \<in> set (run env xs s). memoized s'"
  using assms
proof (induction xs arbitrary: s)
  case Nil
  then show ?case by simp
next
  case (Cons x xs)
  obtain threw s' where st: "step env x s = (threw, s')"
    by (cases "step env x s")
  with step_memoized [OF Cons.prems, of env x] have "memoized s'" by simp
  with Cons.IH [of s'] st show ?case by simp
qed

lemma new_DeltaCalculator_memoized: "memoized (new_DeltaCalculator opts)"
  by (simp add: memoized_def new_DeltaCalculator_def)

text \<open>
  File events keep the two pending sets apart, and a \<^verbatim>\<open>getDelta\<close> call that does not throw
  leaves what the arriving events made of two empty sets. So as long as no call throws, no
  path is pending both as modified and as deleted.
\<close>

lemma getDelta_success_disjoint:
  assumes "getDelta env r evs s = (Inr d, s')"
  shows "pending_disjoint s'"
proof -
  let ?q = "handleMultipleFileChanges evs (s\<lparr>modifiedFiles := [], deletedFiles := []\<rparr>)"
  obtain r0 m' s4 where b: "getChangedDependencies env (modifiedFiles s) (deletedFiles s) ?q = (r0, m', s4)"
    by (cases "getChangedDependencies env (modifiedFiles s) (deletedFiles s) ?q")
  note f = getChangedDependencies_frame [OF b]
  have "pending_disjoint (s\<lparr>modifiedFiles := [], deletedFiles := []\<rparr>)"
    by (simp add: pending_disjoint_def)
  then have q: "pending_disjoint ?q" by (rule handleMultipleFileChanges_disjoint)
  from assms b have "modifiedFiles s' = modifiedFiles s4 \<and> deletedFiles s' = deletedFiles s4"
    by (cases r0) (auto simp: getDelta_def Let_def split: if_splits)
  with f(1,2) q show ?thesis by (simp add: pending_disjoint_def)
qed

lemma step_disjoint:
  assumes "pending_disjoint s" and "step env x s = (False, s')"
  shows "pending_disjoint s'"
proof (cases x)
  case (FileChanges evs)
  with assms show ?thesis by (auto simp: handleMultipleFileChanges_disjoint)
next
  case (GetDelta r evs)
  with assms(2) obtain d where "getDelta env r (delivered s evs) s = (Inr d, s')"
    by (auto split: prod.splits sum.splits)
  then show ?thesis by (rule getDelta_success_disjoint)
next
  case GetTransformerOptions
  with assms(2) obtain r0 where g: "getTransformerOptions env s = (r0, s')"
    by (auto split: prod.splits sum.splits)
  from getTransformerOptions_frame [OF g] assms(1) show ?thesis
    by (simp add: pending_disjoint_def)
next
  case End
  with assms(2) show ?thesis
    by (auto simp: pending_disjoint_def end_DeltaCalculator_def)
qed

lemma run_disjoint:
  assumes "pending_disjoint s" and "\<forall>(threw, s') \<in> set (run env xs s). \<not> threw"
  shows "\<forall>(threw, s') \<in> set (run env xs s). pending_disjoint s'"
  using assms
proof (induction xs arbitrary: s)
  case Nil
  then show ?case by simp
next
  case (Cons x xs)
  obtain threw s' where st: "step env x s = (threw, s')"
    by (cases "step env x s")
  with Cons.prems(2) have nt: "\<not> threw" and rest: "\<forall>(threw, s'') \<in> set (run env xs s'). \<not> threw"
    by simp_all
  from st nt step_disjoint [OF Cons.prems(1)] have d: "pending_disjoint s'" by simp
  from Cons.IH [OF d rest] d st show ?case by simp
qed

lemma handleFileChange_exclusive:
  "(if ev_type ev = ''delete''
    then filePath ev \<in> set (deletedFiles (handleFileChange ev s))
       \<and> filePath ev \<notin> set (modifiedFiles (handleFileChange ev s))
    else filePath ev \<in> set (modifiedFiles (handleFileChange ev s))
       \<and> filePath ev \<notin> set (deletedFiles (handleFileChange ev s)))"
  by (simp add: handleFileChange_def Let_def set_Set_add set_Set_delete)

section \<open>The first build\<close>

text \<open>
  C6. A \<^verbatim>\<open>getDelta\<close> call on a graph without edges does an initial traversal of the graph
  and no partial one (whatever the partial traversal is, the call does the same; the paths
  it took are neither enlarged nor filtered). When the transformer options are obtained and
  the initial traversal resolves, the delta has reset set and no deleted path. Its modified
  map is the map of the edges that the initial traversal reports as added; on a reset
  request it is the dependencies map of the graph that the traversal has filled, reordered,
  which holds the same edges whenever the reordered graph holds exactly the added ones.
\<close>

theorem getDelta_empty_graph:
  assumes empty: "dependencies (graph s) = []"
      and opts: "getTransformerOptions env s = (Inr t, s1)"
      and init: "initialTraverseDependencies env (graph s) (t, opt_type (options s)) = Resolved added g'"
  shows "fst (getDelta env r evs s) =
           Inr \<lparr>modified = (if r then dependencies (reorderGraph env g') else added),
                deleted = [], reset = True\<rparr>
       \<and> graph (snd (getDelta env r evs s)) = (if r then reorderGraph env g' else g')
       \<and> (\<forall>f. getDelta (env\<lparr>traverseDependencies := f\<rparr>) r evs s = getDelta env r evs s)
       \<and> (\<forall>d. fst (getDelta env r evs s) = Inr d
              \<longrightarrow> set (dependencies (reorderGraph env g')) = set added
              \<longrightarrow> set (modified d) = set added)"
proof -
  note f = getTransformerOptions_frame [OF opts]
  have b0: "getChangedDependencies env (modifiedFiles s) (deletedFiles s) s =
      (Inr \<lparr>modified = added, deleted = [], reset = True\<rparr>, modifiedFiles s, s1\<lparr>graph := g'\<rparr>)"
    using empty init f by (simp add: getChangedDependencies_def opts Map_size_def Let_def)
  from getDelta_build [OF b0, of evs] obtain D M E where
    b: "getChangedDependencies env (modifiedFiles s) (deletedFiles s)
               (handleMultipleFileChanges evs (s\<lparr>modifiedFiles := [], deletedFiles := []\<rparr>))
             = (Inr \<lparr>modified = added, deleted = [], reset = True\<rparr>, modifiedFiles s,
                s1\<lparr>graph := g'\<rparr>\<lparr>deletedFiles := D, modifiedFiles := M, emitted := E\<rparr>)"
    by blast
  have 1: "fst (getDelta env r evs s) =
           Inr \<lparr>modified = (if r then dependencies (reorderGraph env g') else added),
                deleted = [], reset = True\<rparr>"
    by (simp add: getDelta_def Let_def b)
  have 2: "graph (snd (getDelta env r evs s)) = (if r then reorderGraph env g' else g')"
    by (simp add: getDelta_def Let_def b)
  have 3: "\<forall>f. getDelta (env\<lparr>traverseDependencies := f\<rparr>) r evs s = getDelta env r evs s"
    using getDelta_initial [OF empty] by blast
  have 4: "\<forall>d. fst (getDelta env r evs s) = Inr d
              \<longrightarrow> set (dependencies (reorderGraph env g')) = set added
              \<longrightarrow> set (modified d) = set added"
    unfolding 1 by auto
  from 1 2 3 4 show ?thesis by blast
qed

text \<open>
  The first call on a new calculator, with a change of an untracked file pending: the three
  modules of the project are returned, with and without a reset request.
\<close>

theorem getDelta_empty_graph_witness:
  "dependencies (graph ((new_DeltaCalculator example_options)\<lparr>modifiedFiles := [''/untracked.js'']\<rparr>)) = []
   \<and> fst (getTransformerOptions example_collaborators
            ((new_DeltaCalculator example_options)\<lparr>modifiedFiles := [''/untracked.js'']\<rparr>))
     = Inr example_transformerOptions
   \<and> initialTraverseDependencies example_collaborators
        \<lparr>dependencies = [], entryPoints = [''/entry.js'']\<rparr> (example_transformerOptions, Module)
     = Resolved example_modules \<lparr>dependencies = example_modules, entryPoints = [''/entry.js'']\<rparr>
   \<and> fst (getDelta example_collaborators False []
            ((new_DeltaCalculator example_options)\<lparr>modifiedFiles := [''/untracked.js'']\<rparr>))
     = Inr \<lparr>modified = example_modules, deleted = [], reset = True\<rparr>
   \<and> fst (getDelta example_collaborators True []
            ((new_DeltaCalculator example_options)\<lparr>modifiedFiles := [''/untracked.js'']\<rparr>))
     = Inr \<lparr>modified = example_modules, deleted = [], reset = True\<rparr>"
proof -
  let ?s = "(new_DeltaCalculator example_options)\<lparr>modifiedFiles := [''/untracked.js'']\<rparr>"
  let ?g' = "\<lparr>dependencies = example_modules, entryPoints = [''/entry.js'']\<rparr>"
  have e: "dependencies (graph ?s) = []"
    by (simp add: new_DeltaCalculator_def)
  have o: "getTransformerOptions example_collaborators ?s
      = (Inr example_transformerOptions, ?s\<lparr>transformerOptions := Some example_transformerOptions\<rparr>)"
    by (simp add: model_defs example_defs)
  have i: "initialTraverseDependencies example_collaborators (graph ?s)
             (example_transformerOptions, opt_type (options ?s))
      = Resolved example_modules ?g'"
    by (simp add: new_DeltaCalculator_def example_defs)
  have g: "graph ?s = \<lparr>dependencies = [], entryPoints = [''/entry.js'']\<rparr>"
    "opt_type (options ?s) = Module"
    by (simp_all add: new_DeltaCalculator_def example_defs)
  have r: "reorderGraph example_collaborators ?g' = ?g'"
    by (simp add: example_defs)
  from getDelta_empty_graph [OF e o i, of False "[]"]
  have 1: "fst (getDelta example_collaborators False [] ?s)
     = Inr \<lparr>modified = example_modules, deleted = [], reset = True\<rparr>"
    by simp
  from getDelta_empty_graph [OF e o i, of True "[]"]
  have 2: "fst (getDelta example_collaborators True [] ?s)
     = Inr \<lparr>modified = example_modules, deleted = [], reset = True\<rparr>"
    by (simp add: r)
  from e o i 1 2 show ?thesis unfolding g by simp
qed

section \<open>Nothing tracked has changed\<close>

text \<open>
  C7. A \<^verbatim>\<open>getDelta\<close> call without reset, on a graph that has edges (so the transformer
  options are known, see \<open>run_memoized\<close>), where no path with an edge is among the modified
  paths taken or among the \<^verbatim>\<open>inverseDependencies\<close> of a deleted path taken, returns the delta
  with an empty modified map, no deleted path and reset unset. It does so with any
  collaborators, so without the traversal; the graph is the one before the call, and only
  the pending sets differ.
\<close>

theorem getDelta_nothing_tracked:
  assumes nonempty: "dependencies (graph s) \<noteq> []"
      and memo: "transformerOptions s = Some t"
      and none: "\<forall>p. Map_has (dependencies (graph s)) p \<longrightarrow>
                   p \<notin> set (modifiedFiles s)
                   \<and> (\<forall>d\<in>set (deletedFiles s). \<forall>e. Map_get (dependencies (graph s)) d = Some e
                         \<longrightarrow> p \<notin> set (inverseDependencies e))"
  shows "getDelta env False evs s =
           (Inr \<lparr>modified = [], deleted = [], reset = False\<rparr>,
            handleMultipleFileChanges evs (s\<lparr>modifiedFiles := [], deletedFiles := []\<rparr>))
       \<and> graph (snd (getDelta env False evs s)) = graph s"
proof -
  let ?sub = "filter (\<lambda>p. Map_has (dependencies (graph s)) p)
                (invalidateDependents (graph s) (deletedFiles s) (modifiedFiles s))"
  from none have sub: "?sub = []"
    by (auto simp: filter_empty_conv set_invalidateDependents)
  from memo have g: "getTransformerOptions env s = (Inr t, s)"
    by (simp add: getTransformerOptions_def)
  have b0: "getChangedDependencies env (modifiedFiles s) (deletedFiles s) s =
      (Inr \<lparr>modified = [], deleted = [], reset = False\<rparr>,
       invalidateDependents (graph s) (deletedFiles s) (modifiedFiles s), s)"
    using nonempty sub by (simp add: getChangedDependencies_def g Let_def Map_size_def)
  from getDelta_build [OF b0, of evs] obtain D M E where
    h: "handleMultipleFileChanges evs (s\<lparr>modifiedFiles := [], deletedFiles := []\<rparr>)
          = s\<lparr>deletedFiles := D, modifiedFiles := M, emitted := E\<rparr>"
    and b: "getChangedDependencies env (modifiedFiles s) (deletedFiles s)
               (handleMultipleFileChanges evs (s\<lparr>modifiedFiles := [], deletedFiles := []\<rparr>))
             = (Inr \<lparr>modified = [], deleted = [], reset = False\<rparr>,
                invalidateDependents (graph s) (deletedFiles s) (modifiedFiles s),
                s\<lparr>deletedFiles := D, modifiedFiles := M, emitted := E\<rparr>)"
    by blast
  have 1: "getDelta env False evs s =
           (Inr \<lparr>modified = [], deleted = [], reset = False\<rparr>,
            handleMultipleFileChanges evs (s\<lparr>modifiedFiles := [], deletedFiles := []\<rparr>))"
    by (simp add: getDelta_def Let_def b) (simp add: h)
  then show ?thesis by (simp add: handleMultipleFileChanges_fields)
qed

text \<open>
  An untracked file was changed and another one deleted; the traversal at hand would
  reject.
\<close>

theorem getDelta_nothing_tracked_witness:
  "dependencies (graph (example_built\<lparr>modifiedFiles := [''/untracked.js''],
                                       deletedFiles := [''/gone.js'']\<rparr>)) \<noteq> []
   \<and> transformerOptions (example_built\<lparr>modifiedFiles := [''/untracked.js''],
                                        deletedFiles := [''/gone.js'']\<rparr>)
     = Some example_transformerOptions
   \<and> getDelta example_failing False []
        (example_built\<lparr>modifiedFiles := [''/untracked.js''], deletedFiles := [''/gone.js'']\<rparr>)
     = (Inr \<lparr>modified = [], deleted = [], reset = False\<rparr>, example_built)"
proof -
  let ?s = "example_built\<lparr>modifiedFiles := [''/untracked.js''], deletedFiles := [''/gone.js'']\<rparr>"
  have ne: "dependencies (graph ?s) \<noteq> []"
    by (simp add: example_defs)
  have memo: "transformerOptions ?s = Some example_transformerOptions"
    by (simp add: example_built_def)
  have none: "\<forall>p. Map_has (dependencies (graph ?s)) p \<longrightarrow>
                   p \<notin> set (modifiedFiles ?s)
                   \<and> (\<forall>d\<in>set (deletedFiles ?s). \<forall>e. Map_get (dependencies (graph ?s)) d = Some e
                         \<longrightarrow> p \<notin> set (inverseDependencies e))"
    by (simp add: Map_has_def Map_get_def example_built_def example_modules_def)
  have z: "handleMultipleFileChanges [] (?s\<lparr>modifiedFiles := [], deletedFiles := []\<rparr>) = example_built"
    by (simp add: handleMultipleFileChanges_def example_built_def)
  from getDelta_nothing_tracked [OF ne memo none, of example_failing "[]"] ne memo
  show ?thesis unfolding z by blast
qed

section \<open>Messages of the live update server\<close>

text \<open>
  C8. For every change notification that a connection handles, whether the delta is
  computed or the computation throws, the connection sends exactly three messages, in this
  order: \<^verbatim>\<open>update-start\<close>; then an \<^verbatim>\<open>update\<close> message when the delta was computed, or an
  \<^verbatim>\<open>error\<close> message whose body is the thrown error normalized to type, message and one
  entry with description, file name and line number; then \<^verbatim>\<open>update-done\<close>. The handler
  always answers with its messages: no error leaves it.
\<close>

theorem onChange_three_messages:
  "fst (onChange c env evs s) =
     [UpdateStart,
      (case fst (getDelta env False evs s) of
         Inr d \<Rightarrow> Update (prepareUpdate c d)
       | Inl e \<Rightarrow>
           ErrorMessage
             \<lparr>body_type = err_type e, body_message = err_message e,
              errors = [\<lparr>description = err_message e, filename = err_filename e,
                         lineNumber = err_lineNumber e\<rparr>]\<rparr>),
      UpdateDone]
   \<and> snd (onChange c env evs s) = snd (getDelta env False evs s)"
  by (cases "getDelta env False evs s")
     (simp add: onChange_def normalizeError_def Let_def split: sum.splits)

text \<open>
  The two cases of the test file: a change whose delta holds one module, and a delta
  computation that throws the transform error.
\<close>

theorem onChange_three_messages_witness:
  "fst (onChange example_connection example_collaborators []
          (example_built\<lparr>modifiedFiles := [''/b.js'']\<rparr>))
     = [UpdateStart,
        Update \<lparr>modules = [\<lparr>module_id = ''/b.js-id'', module_code = ''__d(function() {});''\<rparr>],
                sourceURLs = [], sourceMappingURLs = []\<rparr>,
        UpdateDone]
   \<and> fst (onChange example_connection example_failing []
          (example_built\<lparr>modifiedFiles := [''/b.js'']\<rparr>))
     = [UpdateStart,
        ErrorMessage
          \<lparr>body_type = Some ''TransformError'', body_message = ''test syntax error'',
           errors = [\<lparr>description = ''test syntax error'', filename = Some ''EntryPoint.js'',
                      lineNumber = Some 123\<rparr>]\<rparr>,
        UpdateDone]"
proof -
  let ?s = "example_built\<lparr>modifiedFiles := [''/b.js'']\<rparr>"
  have ok: "fst (getDelta example_collaborators False [] ?s)
      = Inr \<lparr>modified = drop 2 example_modules, deleted = [], reset = False\<rparr>"
    by (simp add: model_defs example_defs)
  have ko: "fst (getDelta example_failing False [] ?s) = Inl example_error"
    by (simp add: model_defs example_defs)
  have u: "prepareUpdate example_connection
             \<lparr>modified = drop 2 example_modules, deleted = [], reset = False\<rparr>
      = \<lparr>modules = [\<lparr>module_id = ''/b.js-id'', module_code = ''__d(function() {});''\<rparr>],
         sourceURLs = [], sourceMappingURLs = []\<rparr>"
    by (simp add: prepareUpdate_def example_connection_def example_modules_def example_edge_def
          List.map_filter_def)
  from onChange_three_messages [of example_connection example_collaborators "[]" ?s]
    onChange_three_messages [of example_connection example_failing "[]" ?s]
  show ?thesis
    by (simp add: ok ko u example_error_def)
qed

section \<open>Pending sets that overlap\<close>

text \<open>
  C9. The claim is that after every operation no path is pending both as modified and as
  deleted. The handler of file events keeps it so, and so does a \<^verbatim>\<open>getDelta\<close> call that
  does not throw (\<open>run_disjoint\<close>). A call that throws does not: it puts the paths back by
  insertion alone, and the modified set it puts back holds the dependents that the call
  added for the deleted paths. Here the project is built, then \<^verbatim>\<open>/b.js\<close> and \<^verbatim>\<open>/a.js\<close>
  are deleted, and the next build fails: \<^verbatim>\<open>/a.js\<close>, which required \<^verbatim>\<open>/b.js\<close>, is then
  pending as modified and as deleted.
\<close>

theorem failing_getDelta_overlapping_pending_sets:
  "map (\<lambda>(threw, s). (threw, modifiedFiles s, deletedFiles s))
     (run example_failing
        [GetDelta False [],
         FileChanges [\<lparr>ev_type = ''delete'', filePath = ''/b.js''\<rparr>,
                      \<lparr>ev_type = ''delete'', filePath = ''/a.js''\<rparr>],
         GetDelta False []]
        (new_DeltaCalculator example_options))
   = [(False, [], []),
      (False, [], [''/b.js'', ''/a.js'']),
      (True, [''/a.js'', ''/entry.js''], [''/b.js'', ''/a.js''])]"
  by (simp add: model_defs example_defs)

section \<open>After the end\<close>

text \<open>
  C10. \<^verbatim>\<open>end\<close> does not clear the memoized transformer options: after it,
  \<^verbatim>\<open>getTransformerOptions\<close> returns the value that was computed before, whatever the
  collaborators would now compute, and changes nothing. \<^verbatim>\<open>end\<close> resets the graph, the two
  pending sets and the listeners (those of the calculator and the one at the watcher), and
  nothing else.
\<close>

theorem end_keeps_transformerOptions:
  assumes "getTransformerOptions env s = (Inr t, s1)"
  shows "getTransformerOptions env' (end_DeltaCalculator s1) = (Inr t, end_DeltaCalculator s1)
       \<and> end_DeltaCalculator s1 =
           s1\<lparr>graph := \<lparr>dependencies = [], entryPoints = opt_entryPoints (options s1)\<rparr>,
              modifiedFiles := [], deletedFiles := [], listeners := [], watching := False\<rparr>"
proof -
  from assms have "transformerOptions s1 = Some t"
    by (auto simp: getTransformerOptions_def split: option.splits sum.splits)
  then show ?thesis
    by (simp add: getTransformerOptions_def end_DeltaCalculator_def)
qed

text \<open>
  The options are computed on a new calculator; after \<^verbatim>\<open>end\<close>, collaborators whose bundler
  fails still get the same options back.
\<close>

theorem end_keeps_transformerOptions_witness:
  "getTransformerOptions example_collaborators (new_DeltaCalculator example_options)
     = (Inr example_transformerOptions,
        (new_DeltaCalculator example_options)\<lparr>transformerOptions := Some example_transformerOptions\<rparr>)
   \<and> fst (getTransformerOptions
            (example_collaborators
               \<lparr>getTransformOptionsForEntryFiles := (\<lambda>entries devPlatform f. Inl example_error)\<rparr>)
            (end_DeltaCalculator
               ((new_DeltaCalculator example_options)
                  \<lparr>transformerOptions := Some example_transformerOptions\<rparr>)))
     = Inr example_transformerOptions
   \<and> fst (getTransformerOptions
            (example_collaborators
               \<lparr>getTransformOptionsForEntryFiles := (\<lambda>entries devPlatform f. Inl example_error)\<rparr>)
            (new_DeltaCalculator example_options))
     = Inl example_error"
proof -
  let ?s = "new_DeltaCalculator example_options"
  let ?env' = "example_collaborators
               \<lparr>getTransformOptionsForEntryFiles := (\<lambda>entries devPlatform f. Inl example_error)\<rparr>"
  have h: "getTransformerOptions example_collaborators ?s
     = (Inr example_transformerOptions, ?s\<lparr>transformerOptions := Some example_transformerOptions\<rparr>)"
    by (simp add: model_defs example_defs)
  have f: "fst (getTransformerOptions ?env' ?s) = Inl example_error"
    by (simp add: model_defs example_defs)
  note c = end_keeps_transformerOptions [OF h, of ?env', THEN conjunct1]
  from c have "fst (getTransformerOptions ?env'
                     (end_DeltaCalculator (?s\<lparr>transformerOptions := Some example_transformerOptions\<rparr>)))
      = Inr example_transformerOptions"
    by simp
  with h f show ?thesis by blast
qed

end
